theory Spec2Isabelle
  imports Complex_Main
begin

section \<open>Transcription state (src/hooks/useTranscriber.ts)\<close>

text \<open>
  Times are JavaScript numbers holding seconds. They are modelled as \<^typ>\<open>real\<close>: the
  code only compares them, and adds or subtracts \<open>0.25\<close> to a playback rate, which is exact
  in binary floating point on the values that occur.
  A timestamp is the pair \<^verbatim>\<open>[number, number | null]\<close>.
\<close>

type_synonym Timestamp = "real \<times> real option"

text \<open>
  The element type of \<^verbatim>\<open>chunks\<close> in an engine message, and \<^verbatim>\<open>TranscriberChunk\<close>,
  which adds the optional field \<^verbatim>\<open>isEdited?: boolean\<close> (\<open>None\<close> is an absent field).
  Field \<^verbatim>\<open>text\<close> is named \<open>text_chunk\<close> here, and \<open>text_data\<close> in \<^verbatim>\<open>TranscriberData\<close>.
\<close>

record MessageChunk =
  text_chunk :: string
  timestamp :: Timestamp

record TranscriberChunk = MessageChunk +
  isEdited :: "bool option"

record TranscriberData =
  chunks :: "TranscriberChunk list"
  text_data :: string
  isBusy :: bool
  isModelLoading :: bool
  error :: "string option"

record ProgressItem =
  file_item :: string
  loaded :: real
  progress :: real
  total :: real
  name :: string
  status :: string

text \<open>The messages of the worker, by their \<^verbatim>\<open>status\<close> field.\<close>

datatype WorkerMessage =
    Progress string real
  | Update string "MessageChunk list"
  | Complete string "MessageChunk list"
  | Initiate ProgressItem
  | Ready
  | Error string
  | Done string
  | Other

text \<open>
  The state of the hook \<^verbatim>\<open>useTranscriber\<close>: \<open>transcript\<close> is
  \<^verbatim>\<open>TranscriberData | undefined\<close>; \<open>isBusy_hook\<close> and \<open>isModelLoading_hook\<close> are the
  hook's own \<^verbatim>\<open>isBusy\<close> and \<^verbatim>\<open>isModelLoading\<close>.
\<close>

record HookState =
  transcript :: "TranscriberData option"
  isBusy_hook :: bool
  isModelLoading_hook :: bool
  progressItems :: "ProgressItem list"

definition initialTranscript :: TranscriberData where
  "initialTranscript =
     \<lparr>chunks = [], text_data = [], isBusy = False, isModelLoading = False, error = None\<rparr>"

definition initialHookState :: HookState where
  "initialHookState =
     \<lparr>transcript = Some initialTranscript, isBusy_hook = False,
      isModelLoading_hook = False, progressItems = []\<rparr>"

text \<open>\<^verbatim>\<open>prevTranscript?.chunks[i]?.isEdited || false\<close>\<close>

definition prevEdited :: "TranscriberData option \<Rightarrow> nat \<Rightarrow> bool" where
  "prevEdited prevTranscript i =
     (case prevTranscript of
        None \<Rightarrow> False
      | Some p \<Rightarrow>
          if i < length (chunks p)
          then (case isEdited (chunks p ! i) of None \<Rightarrow> False | Some b \<Rightarrow> b)
          else False)"

text \<open>The \<^verbatim>\<open>chunks.map((chunk, i) => ...)\<close> shared by the cases "update" and "complete".\<close>

definition mergeChunks :: "TranscriberData option \<Rightarrow> MessageChunk list \<Rightarrow> TranscriberChunk list" where
  "mergeChunks prevTranscript cs =
     map (\<lambda>(i, chunk).
            \<lparr>text_chunk = text_chunk chunk, timestamp = timestamp chunk,
             isEdited = Some (prevEdited prevTranscript i)\<rparr>)
         (enumerate 0 cs)"

definition errorHint :: string where
  "errorHint =
     '' This is most likely because you are using Safari on an M1/M2 Mac. Please try again from Chrome, Firefox, or Edge.''
     @ [CHR 0x0A, CHR 0x0A] @ ''If this is not the case, please file a bug report.''"

text \<open>The message handler given to \<^verbatim>\<open>useWorker\<close>.\<close>

fun onMessage :: "WorkerMessage \<Rightarrow> HookState \<Rightarrow> HookState" where
  "onMessage (Progress f p) s =
     s\<lparr>progressItems :=
         map (\<lambda>item. if file_item item = f then item\<lparr>progress := p\<rparr> else item) (progressItems s)\<rparr>"
| "onMessage (Update t cs) s =
     s\<lparr>transcript :=
         Some \<lparr>chunks = mergeChunks (transcript s) cs, text_data = t,
               isBusy = True, isModelLoading = False, error = None\<rparr>\<rparr>"
| "onMessage (Complete t cs) s =
     s\<lparr>transcript :=
         Some \<lparr>chunks = mergeChunks (transcript s) cs, text_data = t,
               isBusy = False, isModelLoading = False, error = None\<rparr>,
       isBusy_hook := False\<rparr>"
| "onMessage (Initiate item) s =
     s\<lparr>isModelLoading_hook := True, progressItems := progressItems s @ [item]\<rparr>"
| "onMessage Ready s = s\<lparr>isModelLoading_hook := False\<rparr>"
| "onMessage (Error m) s =
     s\<lparr>isBusy_hook := False,
       transcript :=
         Some ((case transcript s of
                  None \<Rightarrow> \<lparr>chunks = [], text_data = [], isBusy = False,
                            isModelLoading = False, error = None\<rparr>
                | Some prev \<Rightarrow> prev)
               \<lparr>isBusy := False, isModelLoading := False, error := Some (m @ errorHint)\<rparr>)\<rparr>"
| "onMessage (Done f) s =
     s\<lparr>progressItems := filter (\<lambda>item. file_item item \<noteq> f) (progressItems s)\<rparr>"
| "onMessage Other s = s"

text \<open>\<^verbatim>\<open>onInputChange\<close>: a new audio source was selected.\<close>

definition onInputChange :: "HookState \<Rightarrow> HookState" where
  "onInputChange s = s\<lparr>transcript := Some initialTranscript\<rparr>"

text \<open>
  \<^verbatim>\<open>postRequest\<close> (exported as \<^verbatim>\<open>start\<close>): the argument says whether \<^verbatim>\<open>audioData\<close> is
  defined. The request posted to the worker is not part of the state.
\<close>

definition postRequest :: "bool \<Rightarrow> HookState \<Rightarrow> HookState" where
  "postRequest audioData s =
     (if audioData then s\<lparr>transcript := None, isBusy_hook := True\<rparr> else s)"

text \<open>The partial and final Transcription Updates among the messages.\<close>

fun isMerge :: "WorkerMessage \<Rightarrow> bool" where
  "isMerge (Update t cs) = True"
| "isMerge (Complete t cs) = True"
| "isMerge m = False"

text \<open>The handler run on the messages of a list, in their order of arrival.\<close>

definition onMessages :: "WorkerMessage list \<Rightarrow> HookState \<Rightarrow> HookState" where
  "onMessages ms s = foldl (\<lambda>s' m. onMessage m s') s ms"

section \<open>The transcript view (components/Transcript.tsx, in src/unnamed/part_000)\<close>

text \<open>
  What the view reads and writes of the \<^verbatim>\<open><audio>\<close> element held in \<^verbatim>\<open>audioRef\<close>.
  \<open>paused\<close> is only read; \<^verbatim>\<open>play()\<close> and \<^verbatim>\<open>pause()\<close> are recorded as calls.
\<close>

record AudioElement =
  paused :: bool
  playbackRate :: real

text \<open>
  Props and state of the component. \<open>onSeek\<close> says whether the optional callback was
  passed; \<open>audioRef\<close> is \<^verbatim>\<open>audioRef.current\<close>, \<open>None\<close> for \<^verbatim>\<open>null\<close>.
\<close>

record View =
  transcribedData :: "TranscriberData option"
  onSeek :: bool
  currentTime :: real
  editingIndex :: "nat option"
  editText :: string
  playbackSpeed :: real
  audioDuration :: real
  audioRef :: "AudioElement option"

record KeyboardEvent =
  key :: string
  shiftKey :: bool
  targetIsInput :: bool

text \<open>Calls a handler makes on the event, the audio element, the callback and the textarea.\<close>

datatype Call = PreventDefault | StopPropagation | Play | Pause | OnSeek real | FocusEdit

text \<open>
  An edit committed at an index beyond the array leaves an element without
  \<^verbatim>\<open>timestamp\<close> in \<^verbatim>\<open>chunks\<close>, and the render that follows throws on
  \<^verbatim>\<open>chunk.timestamp[0]\<close>.
\<close>

datatype Fault = TypeError

definition initialView :: "TranscriberData option \<Rightarrow> bool \<Rightarrow> View" where
  "initialView td seek =
     \<lparr>transcribedData = td, onSeek = seek, currentTime = 0, editingIndex = None,
      editText = [], playbackSpeed = 1, audioDuration = 0, audioRef = None\<rparr>"

text \<open>
  The loop of \<^verbatim>\<open>getCurrentUtteranceIndex\<close>, from index \<open>i\<close> on:
  \<^verbatim>\<open>end = chunk.timestamp[1] ?? (i < chunks.length - 1 ? chunks[i + 1].timestamp[0] : audioDuration)\<close>.
\<close>

function findChunk :: "TranscriberChunk list \<Rightarrow> real \<Rightarrow> real \<Rightarrow> nat \<Rightarrow> int" where
  "findChunk cs t duration i =
     (if i < length cs then
        (let chunk = cs ! i;
             start = fst (timestamp chunk);
             end' = (case snd (timestamp chunk) of
                       Some e \<Rightarrow> e
                     | None \<Rightarrow>
                         if i < length cs - 1 then fst (timestamp (cs ! (i + 1)))
                         else duration)
         in if t \<ge> start \<and> t < end' then int i
            else findChunk cs t duration (i + 1))
      else - 1)"
  by pat_completeness auto
termination
  by (relation "measure (\<lambda>(cs, t, duration, i). length cs - i)") auto

declare findChunk.simps [simp del]

definition getCurrentUtteranceIndex :: "View \<Rightarrow> int" where
  "getCurrentUtteranceIndex v =
     (case transcribedData v of
        None \<Rightarrow> - 1
      | Some d \<Rightarrow>
          if chunks d = [] then - 1
          else
            let lastIndex = length (chunks d) - 1;
                lastChunk = chunks d ! lastIndex
            in if isBusy d \<and> currentTime v \<ge> fst (timestamp lastChunk) then int lastIndex
               else findChunk (chunks d) (currentTime v) (audioDuration v) 0)"

text \<open>
  The end the loop resolves for chunk \<open>i\<close>, and its test that chunk \<open>i\<close> contains time \<open>t\<close>,
  named for the statements about the loop.
\<close>

definition lookupEnd :: "TranscriberChunk list \<Rightarrow> real \<Rightarrow> nat \<Rightarrow> real" where
  "lookupEnd cs duration i =
     (case snd (timestamp (cs ! i)) of
        Some e \<Rightarrow> e
      | None \<Rightarrow> if i < length cs - 1 then fst (timestamp (cs ! (i + 1))) else duration)"

definition chunkContains :: "TranscriberChunk list \<Rightarrow> real \<Rightarrow> real \<Rightarrow> nat \<Rightarrow> bool" where
  "chunkContains cs t duration i =
     (t \<ge> fst (timestamp (cs ! i)) \<and> t < lookupEnd cs duration i)"

text \<open>
  The boundaries the render computes for chunk \<open>i\<close>:
  \<^verbatim>\<open>end = i < chunks.length - 1 ? chunks[i + 1].timestamp[0] : (chunk.timestamp[1] || audioDuration)\<close>;
  \<^verbatim>\<open>||\<close> also takes the duration when the end is \<open>0\<close>.
\<close>

definition renderEnd :: "TranscriberChunk list \<Rightarrow> real \<Rightarrow> nat \<Rightarrow> real" where
  "renderEnd cs duration i =
     (if i < length cs - 1 then fst (timestamp (cs ! (i + 1)))
      else (case snd (timestamp (cs ! i)) of
              None \<Rightarrow> duration
            | Some e \<Rightarrow> if e = 0 then duration else e))"

definition isPlaying :: "View \<Rightarrow> nat \<Rightarrow> bool" where
  "isPlaying v i =
     (case transcribedData v of
        None \<Rightarrow> False
      | Some d \<Rightarrow>
          i < length (chunks d) \<and>
          currentTime v \<ge> fst (timestamp (chunks d ! i)) \<and>
          currentTime v < renderEnd (chunks d) (audioDuration v) i)"

text \<open>
  The segment boundaries as the specification resolves them, to be compared with the lookup:
  the end of segment \<open>i\<close> is the start of segment \<open>i + 1\<close> when \<open>i\<close> is not the last index, and
  otherwise the segment's end time when present, else the duration.
\<close>

definition effectiveEnd :: "TranscriberChunk list \<Rightarrow> real \<Rightarrow> nat \<Rightarrow> real" where
  "effectiveEnd cs duration i =
     (if i < length cs - 1 then fst (timestamp (cs ! (i + 1)))
      else (case snd (timestamp (cs ! i)) of Some e \<Rightarrow> e | None \<Rightarrow> duration))"

definition inBoundaries :: "TranscriberChunk list \<Rightarrow> real \<Rightarrow> real \<Rightarrow> nat \<Rightarrow> bool" where
  "inBoundaries cs t duration i =
     (t \<ge> fst (timestamp (cs ! i)) \<and> t < effectiveEnd cs duration i)"

definition outsideAllBoundaries :: "TranscriberChunk list \<Rightarrow> real \<Rightarrow> real \<Rightarrow> bool" where
  "outsideAllBoundaries cs t duration =
     (\<forall>i \<in> {0..<length cs}. \<not> inBoundaries cs t duration i)"

text \<open>No stated end time of a segment exceeds the start time of the next segment.\<close>

definition endsBeforeNext :: "TranscriberChunk list \<Rightarrow> bool" where
  "endsBeforeNext cs =
     (\<forall>i \<in> {0..<length cs - 1}.
        case snd (timestamp (cs ! i)) of
          None \<Rightarrow> True
        | Some e \<Rightarrow> e \<le> fst (timestamp (cs ! (i + 1))))"

text \<open>
  The condition of the special case of \<^verbatim>\<open>getCurrentUtteranceIndex\<close>, on a timeline with
  chunks: the engine is busy and the time is at or after the start of the last chunk.
\<close>

definition streamingOverride :: "TranscriberData \<Rightarrow> real \<Rightarrow> bool" where
  "streamingOverride d t =
     (chunks d \<noteq> [] \<and> isBusy d \<and>
      t \<ge> fst (timestamp (chunks d ! (length (chunks d) - 1))))"

text \<open>\<^verbatim>\<open>!editingIndex\<close>: true for \<^verbatim>\<open>null\<close> and for index \<open>0\<close>.\<close>

definition falsy :: "nat option \<Rightarrow> bool" where
  "falsy n = (case n of None \<Rightarrow> True | Some k \<Rightarrow> k = 0)"

text \<open>
  \<^verbatim>\<open>handleKeyDown\<close>, the \<^verbatim>\<open>keydown\<close> listener on the window. It is a closure over the
  props and state of a render; \<open>v\<close> holds the values it reads. It returns the view after
  its state setters and its write to \<^verbatim>\<open>playbackRate\<close>, and the calls it made.
\<close>

definition handleKeyDown :: "KeyboardEvent \<Rightarrow> View \<Rightarrow> View \<times> Call list" where
  "handleKeyDown e v =
     (if editingIndex v \<noteq> None then (v, [])
      else if targetIsInput e then (v, [])
      else case transcribedData v of
        None \<Rightarrow> (v, [])
      | Some d \<Rightarrow>
          if chunks d = [] then (v, [])
          else
            let currentIndex = getCurrentUtteranceIndex v in
            if currentIndex = - 1 then (v, [])
            else if key e = '' '' then
              (case audioRef v of
                 None \<Rightarrow> (v, [PreventDefault])
               | Some a \<Rightarrow> (v, [PreventDefault, if paused a then Play else Pause]))
            else if key e = ''ArrowRight'' then
              (if currentIndex < int (length (chunks d)) - 1 \<and> onSeek v
               then (v, [OnSeek (fst (timestamp (chunks d ! nat (currentIndex + 1))))])
               else (v, []))
            else if key e = ''ArrowLeft'' then
              (if currentIndex > 0 \<and> onSeek v
               then (v, [OnSeek (fst (timestamp (chunks d ! nat (currentIndex - 1))))])
               else (v, []))
            else if key e = ''Enter'' then
              (if falsy (editingIndex v)
               then (v\<lparr>editingIndex := Some (nat currentIndex),
                       editText := text_chunk (chunks d ! nat currentIndex)\<rparr>,
                     [PreventDefault, FocusEdit])
               else (v, []))
            else if key e = ''Escape'' then
              (if editingIndex v \<noteq> None then (v\<lparr>editingIndex := None\<rparr>, []) else (v, []))
            else if key e = ''ArrowUp'' then
              (case audioRef v of
                 None \<Rightarrow> (v, [PreventDefault])
               | Some a \<Rightarrow>
                   let newSpeed = min 4 (playbackSpeed v + 1 / 4)
                   in (v\<lparr>audioRef := Some (a\<lparr>playbackRate := newSpeed\<rparr>),
                         playbackSpeed := newSpeed\<rparr>, [PreventDefault]))
            else if key e = ''ArrowDown'' then
              (case audioRef v of
                 None \<Rightarrow> (v, [PreventDefault])
               | Some a \<Rightarrow>
                   let newSpeed = max (1 / 4) (playbackSpeed v - 1 / 4)
                   in (v\<lparr>audioRef := Some (a\<lparr>playbackRate := newSpeed\<rparr>),
                         playbackSpeed := newSpeed\<rparr>, [PreventDefault]))
            else (v, []))"

text \<open>
  \<^verbatim>\<open>handleEditKeyDown\<close>, the key handler of the textarea. The commit copies the array,
  replaces element \<open>editingIndex\<close> and assigns \<^verbatim>\<open>chunks\<close> and the joined \<^verbatim>\<open>text\<close> to the
  transcript object.
\<close>

definition handleEditKeyDown :: "KeyboardEvent \<Rightarrow> View \<Rightarrow> Fault + View \<times> Call list" where
  "handleEditKeyDown e v =
     (if key e = ''Enter'' \<and> \<not> shiftKey e then
        (case editingIndex v of
           None \<Rightarrow> Inr (v, [PreventDefault, StopPropagation])
         | Some i \<Rightarrow>
             (case transcribedData v of
                None \<Rightarrow> Inr (v, [PreventDefault, StopPropagation])
              | Some d \<Rightarrow>
                  if i < length (chunks d) then
                    let newChunks =
                          (chunks d)[i := (chunks d ! i)\<lparr>text_chunk := editText v,
                                                          isEdited := Some True\<rparr>]
                    in Inr (v\<lparr>transcribedData :=
                                Some (d\<lparr>chunks := newChunks,
                                        text_data := concat (map text_chunk newChunks)\<rparr>),
                              editingIndex := None\<rparr>,
                            [PreventDefault, StopPropagation])
                  else Inl TypeError))
      else if key e = ''Escape'' then
        Inr (v\<lparr>editingIndex := None\<rparr>, [PreventDefault, StopPropagation])
      else Inr (v, []))"

text \<open>The textarea's \<^verbatim>\<open>onChange\<close>: \<^verbatim>\<open>setEditText(e.target.value)\<close>.\<close>

definition onChange :: "string \<Rightarrow> View \<Rightarrow> View" where
  "onChange newText v = v\<lparr>editText := newText\<rparr>"

subsection \<open>Playback speeds\<close>

text \<open>A rate between \<open>0.25\<close> and \<open>4\<close> that is a multiple of \<open>0.25\<close>.\<close>

definition rateOk :: "real \<Rightarrow> bool" where
  "rateOk r = (1 / 4 \<le> r \<and> r \<le> 4 \<and> 4 * r = of_int \<lfloor>4 * r\<rfloor>)"

text \<open>
  \<^verbatim>\<open>playbackSpeed\<close> starts as \<^verbatim>\<open>useState(1)\<close> and is written by \<^verbatim>\<open>handleKeyDown\<close> only.
  The handler is a closure over the component's state: it may run in any view whose
  \<open>playbackSpeed\<close> is a speed the component has held.
\<close>

inductive reachableSpeed :: "real \<Rightarrow> bool" where
  initial: "reachableSpeed 1"
| keyDown: "reachableSpeed (playbackSpeed v) \<Longrightarrow>
            reachableSpeed (playbackSpeed (fst (handleKeyDown e v)))"

section \<open>Example sessions\<close>

definition mkChunk :: "string \<Rightarrow> real \<Rightarrow> real option \<Rightarrow> bool option \<Rightarrow> TranscriberChunk" where
  "mkChunk t s e ed = \<lparr>text_chunk = t, timestamp = (s, e), isEdited = ed\<rparr>"

definition mkMessageChunk :: "string \<Rightarrow> real \<Rightarrow> real option \<Rightarrow> MessageChunk" where
  "mkMessageChunk t s e = \<lparr>text_chunk = t, timestamp = (s, e)\<rparr>"

definition keyPress :: "string \<Rightarrow> KeyboardEvent" where
  "keyPress k = \<lparr>key = k, shiftKey = False, targetIsInput = False\<rparr>"

text \<open>
  Two utterances, \<open>[1, 2]\<close> and \<open>[3, 4]\<close>, with silence before, between and after them;
  transcription has finished. \<open>gapView t\<close> plays the audio, of duration \<open>5\<close>, at time \<open>t\<close>.
\<close>

definition gapData :: TranscriberData where
  "gapData =
     \<lparr>chunks = [mkChunk ''Hello'' 1 (Some 2) (Some False), mkChunk ''world'' 3 (Some 4) (Some False)],
      text_data = ''Helloworld'', isBusy = False, isModelLoading = False, error = None\<rparr>"

definition gapView :: "real \<Rightarrow> View" where
  "gapView t =
     \<lparr>transcribedData = Some gapData, onSeek = True, currentTime = t, editingIndex = None,
      editText = [], playbackSpeed = 1, audioDuration = 5,
      audioRef = Some \<lparr>paused = False, playbackRate = 1\<rparr>\<rparr>"

text \<open>A timeline whose last utterance is open; \<open>helloView b t\<close> plays it at time \<open>t\<close>.\<close>

definition helloData :: "bool \<Rightarrow> TranscriberData" where
  "helloData busy =
     \<lparr>chunks = [mkChunk ''Hello'' 0 (Some 2) None, mkChunk ''world'' 2 None None],
      text_data = ''Helloworld'', isBusy = busy, isModelLoading = False, error = None\<rparr>"

definition helloView :: "bool \<Rightarrow> real \<Rightarrow> View" where
  "helloView busy t =
     \<lparr>transcribedData = Some (helloData busy), onSeek = True, currentTime = t,
      editingIndex = None, editText = [], playbackSpeed = 1, audioDuration = 5,
      audioRef = Some \<lparr>paused = True, playbackRate = 1\<rparr>\<rparr>"

text \<open>The view before any transcript has arrived, with the audio element found.\<close>

definition emptyView :: View where
  "emptyView =
     (initialView (Some initialTranscript) True)
       \<lparr>audioRef := Some \<lparr>paused = True, playbackRate = 1\<rparr>\<rparr>"

text \<open>
  The view in which the listener still holds speed \<open>1\<close> after a first ArrowUp has set the
  rate of the audio element to \<open>1.25\<close>: the effect that registers the listener depends on
  \<^verbatim>\<open>[transcribedData, currentTime, editingIndex]\<close>, not on \<^verbatim>\<open>playbackSpeed\<close>, so while the
  audio is paused the listener of the earlier render stays.
\<close>

definition staleView :: View where
  "staleView = (helloView False 1)\<lparr>audioRef := Some \<lparr>paused = True, playbackRate = 5 / 4\<rparr>\<rparr>"

text \<open>A hook state whose first utterance was edited by the user, and one holding an error.\<close>

definition editedState :: HookState where
  "editedState =
     \<lparr>transcript =
        Some \<lparr>chunks = [mkChunk ''Hullo'' 0 (Some 2) (Some True), mkChunk ''world'' 2 None (Some False)],
              text_data = ''Hulloworld'', isBusy = True, isModelLoading = False, error = None\<rparr>,
      isBusy_hook = True, isModelLoading_hook = False, progressItems = []\<rparr>"

definition failedState :: HookState where
  "failedState = onMessage (Error ''out of memory.'') editedState"

section \<open>Merging engine updates\<close>

lemma length_mergeChunks: "length (mergeChunks prev cs) = length cs"
  by (simp add: mergeChunks_def)

lemma nth_mergeChunks:
  "k < length cs \<Longrightarrow>
   mergeChunks prev cs ! k =
     \<lparr>text_chunk = text_chunk (cs ! k), timestamp = timestamp (cs ! k),
      isEdited = Some (prevEdited prev k)\<rparr>"
  by (simp add: mergeChunks_def nth_enumerate_eq)

lemma prevEdited_iff:
  "prevEdited prev k \<longleftrightarrow>
     (\<exists>d. prev = Some d \<and> k < length (chunks d) \<and> isEdited (chunks d ! k) = Some True)"
  by (auto simp: prevEdited_def split: option.splits)

text \<open>
  Claim C2 (edit preservation across merge). A partial or a final update that has an entry
  at index \<open>k\<close> yields a timeline with as many segments as the update, whose segment \<open>k\<close>
  is marked edited when the previous timeline had a segment \<open>k\<close> with \<open>isEdited = true\<close>,
  and is marked not edited otherwise (no previous timeline, no segment \<open>k\<close> in it, or that
  segment not edited).
\<close>

theorem edit_preserved_across_merge:
  assumes "m = Update t cs \<or> m = Complete t cs" and "k < length cs"
  shows "\<exists>d'. transcript (onMessage m s) = Some d' \<and> length (chunks d') = length cs \<and>
           ((\<exists>d. transcript s = Some d \<and> k < length (chunks d) \<and>
                 isEdited (chunks d ! k) = Some True)
              \<longrightarrow> isEdited (chunks d' ! k) = Some True) \<and>
           (\<not> (\<exists>d. transcript s = Some d \<and> k < length (chunks d) \<and>
                   isEdited (chunks d ! k) = Some True)
              \<longrightarrow> isEdited (chunks d' ! k) = Some False)"
  using assms
  by (auto simp: length_mergeChunks nth_mergeChunks prevEdited_iff)

theorem edit_preserved_across_merge_witness:
  "\<exists>d'. transcript (onMessage (Update ''Hello world'' [mkMessageChunk ''Hello'' 0 (Some 2), mkMessageChunk '' world'' 2 None]) editedState) = Some d'
     \<and> isEdited (chunks d' ! 0) = Some True \<and> isEdited (chunks d' ! 1) = Some False"
  using edit_preserved_across_merge [of "Update ''Hello world'' [mkMessageChunk ''Hello'' 0 (Some 2), mkMessageChunk '' world'' 2 None]" "''Hello world''" "[mkMessageChunk ''Hello'' 0 (Some 2), mkMessageChunk '' world'' 2 None]" 0 editedState]
    edit_preserved_across_merge [of "Update ''Hello world'' [mkMessageChunk ''Hello'' 0 (Some 2), mkMessageChunk '' world'' 2 None]" "''Hello world''" "[mkMessageChunk ''Hello'' 0 (Some 2), mkMessageChunk '' world'' 2 None]" 1 editedState]
  by (simp add: editedState_def mkChunk_def)

text \<open>
  Claim C9 (idempotent final merge). Handling the same final update twice in succession
  gives the same hook state as handling it once: chunks with their text, timestamps and
  edited flags, the full text, and the busy and loading flags.
\<close>

theorem final_merge_idempotent:
  "onMessage (Complete t cs) (onMessage (Complete t cs) s) = onMessage (Complete t cs) s"
proof -
  have "prevEdited (Some \<lparr>chunks = mergeChunks p cs, text_data = t, isBusy = False,
                           isModelLoading = False, error = None\<rparr>) k = prevEdited p k"
    if "k < length cs" for k p
    using that by (simp add: prevEdited_def length_mergeChunks nth_mergeChunks)
  then have "mergeChunks (Some \<lparr>chunks = mergeChunks p cs, text_data = t, isBusy = False,
                           isModelLoading = False, error = None\<rparr>) cs = mergeChunks p cs" for p
    by (intro nth_equalityI) (simp_all add: length_mergeChunks nth_mergeChunks)
  then show ?thesis by simp
qed

subsection \<open>Errors\<close>

text \<open>
  Claim C8 (error atomicity). Handling an error signal sets the hook's \<open>isBusy\<close> and the
  transcript's \<open>isBusy\<close> to false and stores the engine's message, followed by the fixed
  hint, as the transcript's error. The chunks and the full text are those of the previous
  transcript; when there was no transcript (\<^verbatim>\<open>undefined\<close>, after a start), they are the empty
  list and the empty text.
\<close>

theorem error_preserves_timeline:
  "isBusy_hook (onMessage (Error msg) s) = False \<and>
   (\<exists>d'. transcript (onMessage (Error msg) s) = Some d' \<and>
          isBusy d' = False \<and> error d' = Some (msg @ errorHint) \<and>
          (case transcript s of
             Some d \<Rightarrow> chunks d' = chunks d \<and> text_data d' = text_data d
           | None \<Rightarrow> chunks d' = [] \<and> text_data d' = []))"
  by (simp split: option.splits)

text \<open>
  Claim C10 (error cleared by a later merge). From a state whose transcript carries an error
  message, a partial or a final update yields a transcript without error message.
\<close>

theorem merge_clears_error:
  assumes "transcript s = Some d" and "error d = Some msg"
    and "m = Update t cs \<or> m = Complete t cs"
  shows "\<exists>d'. transcript (onMessage m s) = Some d' \<and> error d' = None"
  using assms by auto

theorem merge_clears_error_witness:
  "(\<exists>d. transcript failedState = Some d \<and> error d = Some (''out of memory.'' @ errorHint)) \<and>
   (\<exists>d'. transcript (onMessage (Complete ''Hello'' [mkMessageChunk ''Hello'' 0 (Some 2)]) failedState) = Some d'
       \<and> error d' = None)"
  using merge_clears_error [of failedState _ "''out of memory.'' @ errorHint"
      "Complete ''Hello'' [mkMessageChunk ''Hello'' 0 (Some 2)]" "''Hello''" "[mkMessageChunk ''Hello'' 0 (Some 2)]"]
  by (simp add: failedState_def editedState_def)

subsection \<open>Messages after the final update\<close>

lemma onMessage_keeps_timeline:
  assumes "\<not> isMerge m" and "transcript s = Some d"
  shows "\<exists>d'. transcript (onMessage m s) = Some d' \<and> chunks d' = chunks d \<and>
               text_data d' = text_data d"
  using assms by (cases m) simp_all

lemma onMessages_keep_timeline:
  assumes "\<not> list_ex isMerge ms" and "transcript s = Some d"
  shows "\<exists>d'. transcript (onMessages ms s) = Some d' \<and> chunks d' = chunks d \<and>
               text_data d' = text_data d"
  using assms
proof (induction ms arbitrary: s d)
  case Nil
  then show ?case by (simp add: onMessages_def)
next
  case (Cons m ms)
  from Cons.prems have m: "\<not> isMerge m" and ms: "\<not> list_ex isMerge ms" by simp_all
  from onMessage_keeps_timeline [OF m Cons.prems(2)]
  obtain d1 where d1: "transcript (onMessage m s) = Some d1" "chunks d1 = chunks d"
      "text_data d1 = text_data d" by blast
  from Cons.IH [OF ms d1(1)] d1(2,3) show ?case by (simp add: onMessages_def)
qed

text \<open>
  Claim C5 (frozen after final or error) does not hold: the handler has no frozen state. A
  partial update that arrives after the final update replaces the chunks.
\<close>

theorem frozen_after_final_counterexample:
  "map_option chunks (transcript (onMessage (Complete ''Hello'' [mkMessageChunk ''Hello'' 0 (Some 2)]) initialHookState))
     = Some [mkChunk ''Hello'' 0 (Some 2) (Some False)] \<and>
   map_option chunks (transcript (onMessage (Update ''Bye'' [mkMessageChunk ''Bye'' 0 None])
      (onMessage (Complete ''Hello'' [mkMessageChunk ''Hello'' 0 (Some 2)]) initialHookState)))
     = Some [mkChunk ''Bye'' 0 None (Some False)]"
  by (simp add: initialHookState_def initialTranscript_def mergeChunks_def prevEdited_def
      mkMessageChunk_def mkChunk_def)

text \<open>
  Claim C5 as amended. Once a final update or an error signal has been handled, there is a
  transcript, and every later sequence of messages that holds no partial or final update
  (progress, initiate, ready, done, error, unknown) leaves its chunks and its full text
  unchanged; a later partial or final update is still merged: the chunks become the
  update's segments, with the edited flags of the current chunks by index, and the text the
  update's text.
\<close>

theorem merges_continue_after_final:
  assumes "s = onMessage f s0" and "f = Complete t0 cs0 \<or> f = Error msg"
  shows "\<exists>d. transcript s = Some d \<and>
           (\<not> list_ex isMerge ms \<longrightarrow>
              (\<exists>d'. transcript (onMessages ms s) = Some d' \<and> chunks d' = chunks d \<and>
                     text_data d' = text_data d)) \<and>
           (m = Update t cs \<or> m = Complete t cs \<longrightarrow>
              (\<exists>d'. transcript (onMessage m s) = Some d' \<and>
                     chunks d' = mergeChunks (Some d) cs \<and> text_data d' = t))"
proof -
  from assms obtain d where d: "transcript s = Some d" by auto
  have "m = Update t cs \<or> m = Complete t cs \<Longrightarrow>
      \<exists>d'. transcript (onMessage m s) = Some d' \<and>
                     chunks d' = mergeChunks (Some d) cs \<and> text_data d' = t"
    using d by auto
  with d onMessages_keep_timeline [of ms s d] show ?thesis by blast
qed

theorem merges_continue_after_final_witness:
  "(\<exists>d'. transcript (onMessages [Ready, Error ''late.'', Progress ''model.onnx'' 1, Done ''model.onnx'']
             (onMessage (Complete ''Hello'' [mkMessageChunk ''Hello'' 0 (Some 2)]) initialHookState)) = Some d'
       \<and> chunks d' = [mkChunk ''Hello'' 0 (Some 2) (Some False)] \<and> text_data d' = ''Hello'') \<and>
   (\<exists>d'. transcript (onMessage (Update ''Bye'' [mkMessageChunk ''Bye'' 0 None])
             (onMessage (Complete ''Hello'' [mkMessageChunk ''Hello'' 0 (Some 2)]) initialHookState)) = Some d'
       \<and> chunks d' = [mkChunk ''Bye'' 0 None (Some False)] \<and> text_data d' = ''Bye'')"
  using merges_continue_after_final [of
      "onMessage (Complete ''Hello'' [mkMessageChunk ''Hello'' 0 (Some 2)]) initialHookState"
      "Complete ''Hello'' [mkMessageChunk ''Hello'' 0 (Some 2)]" initialHookState
      "''Hello''" "[mkMessageChunk ''Hello'' 0 (Some 2)]" _
      "[Ready, Error ''late.'', Progress ''model.onnx'' 1, Done ''model.onnx'']"
      "Update ''Bye'' [mkMessageChunk ''Bye'' 0 None]" "''Bye''" "[mkMessageChunk ''Bye'' 0 None]"]
  by (simp add: initialHookState_def initialTranscript_def mergeChunks_def prevEdited_def
      mkMessageChunk_def mkChunk_def)

section \<open>Active-segment lookup\<close>

lemma findChunk_range:
  "findChunk cs t duration i = - 1 \<or>
   (int i \<le> findChunk cs t duration i \<and> findChunk cs t duration i < int (length cs))"
proof (induction cs t duration i rule: findChunk.induct)
  case (1 cs t duration i)
  show ?case
  proof (cases "i < length cs")
    case False
    then show ?thesis by (simp add: findChunk.simps [of cs t duration i])
  next
    case True
    define end' where
      "end' = (case snd (timestamp (cs ! i)) of
                 Some e \<Rightarrow> e
               | None \<Rightarrow> if i < length cs - 1 then fst (timestamp (cs ! (i + 1))) else duration)"
    have step: "findChunk cs t duration i =
        (if t \<ge> fst (timestamp (cs ! i)) \<and> t < end' then int i
         else findChunk cs t duration (i + 1))"
      using True by (subst findChunk.simps) (simp add: end'_def Let_def)
    show ?thesis
    proof (cases "t \<ge> fst (timestamp (cs ! i)) \<and> t < end'")
      case hit: True
      with True step show ?thesis by simp
    next
      case miss: False
      from "1.IH" [OF True refl refl end'_def miss] miss
      show ?thesis unfolding step by auto
    qed
  qed
qed

lemma getCurrentUtteranceIndex_range:
  assumes "getCurrentUtteranceIndex v = int i"
  shows "\<exists>d. transcribedData v = Some d \<and> i < length (chunks d)"
proof (cases "transcribedData v")
  case None
  with assms show ?thesis by (simp add: getCurrentUtteranceIndex_def)
next
  case (Some d)
  show ?thesis
  proof (cases "chunks d = []")
    case True
    with Some assms show ?thesis by (simp add: getCurrentUtteranceIndex_def)
  next
    case False
    then have pos: "0 < length (chunks d)" by simp
    from findChunk_range [of "chunks d" "currentTime v" "audioDuration v" 0]
    show ?thesis using Some False assms pos
      by (auto simp: getCurrentUtteranceIndex_def Let_def split: if_splits)
  qed
qed

lemma findChunk_step:
  "i < length cs \<Longrightarrow>
   findChunk cs t duration i =
     (if chunkContains cs t duration i then int i else findChunk cs t duration (i + 1))"
  by (subst findChunk.simps) (simp add: chunkContains_def lookupEnd_def Let_def)

lemma findChunk_first:
  "(findChunk cs t duration i = - 1 \<and>
      (\<forall>j. i \<le> j \<and> j < length cs \<longrightarrow> \<not> chunkContains cs t duration j)) \<or>
   (\<exists>k. findChunk cs t duration i = int k \<and> i \<le> k \<and> k < length cs \<and>
        chunkContains cs t duration k \<and>
        (\<forall>j. i \<le> j \<and> j < k \<longrightarrow> \<not> chunkContains cs t duration j))"
proof (induction cs t duration i rule: findChunk.induct)
  case (1 cs t duration i)
  show ?case
  proof (cases "i < length cs")
    case False
    then have "findChunk cs t duration i = - 1"
      by (simp add: findChunk.simps [of cs t duration i])
    with False show ?thesis by auto
  next
    case True
    note step = findChunk_step [OF True, of t duration]
    show ?thesis
    proof (cases "chunkContains cs t duration i")
      case hit: True
      with True step show ?thesis by auto
    next
      case miss: False
      then have "\<not> (t \<ge> fst (timestamp (cs ! i)) \<and> t < lookupEnd cs duration i)"
        by (simp add: chunkContains_def)
      from "1.IH" [OF True refl refl lookupEnd_def [of cs duration i] this]
      show ?thesis
      proof (elim disjE conjE exE)
        assume none: "findChunk cs t duration (i + 1) = - 1"
          and all: "\<forall>j. i + 1 \<le> j \<and> j < length cs \<longrightarrow> \<not> chunkContains cs t duration j"
        have "\<not> chunkContains cs t duration j" if "i \<le> j" "j < length cs" for j
          using that miss all by (cases "j = i") auto
        with none miss step show ?thesis by simp
      next
        fix k
        assume k: "findChunk cs t duration (i + 1) = int k" "i + 1 \<le> k" "k < length cs"
          "chunkContains cs t duration k"
          and all: "\<forall>j. i + 1 \<le> j \<and> j < k \<longrightarrow> \<not> chunkContains cs t duration j"
        have "\<not> chunkContains cs t duration j" if "i \<le> j" "j < k" for j
          using that miss all by (cases "j = i") auto
        with k miss step show ?thesis by auto
      qed
    qed
  qed
qed

lemma getCurrentUtteranceIndex_first:
  assumes "transcribedData v = Some d" and "\<not> streamingOverride d (currentTime v)"
  shows "(getCurrentUtteranceIndex v = - 1 \<and>
            (\<forall>j < length (chunks d).
               \<not> chunkContains (chunks d) (currentTime v) (audioDuration v) j)) \<or>
         (\<exists>k. getCurrentUtteranceIndex v = int k \<and> k < length (chunks d) \<and>
              chunkContains (chunks d) (currentTime v) (audioDuration v) k \<and>
              (\<forall>j < k. \<not> chunkContains (chunks d) (currentTime v) (audioDuration v) j))"
proof (cases "chunks d = []")
  case True
  with assms show ?thesis by (simp add: getCurrentUtteranceIndex_def)
next
  case False
  with assms have "getCurrentUtteranceIndex v =
      findChunk (chunks d) (currentTime v) (audioDuration v) 0"
    by (auto simp: getCurrentUtteranceIndex_def streamingOverride_def Let_def)
  with findChunk_first [of "chunks d" "currentTime v" "audioDuration v" 0]
  show ?thesis by auto
qed

lemma chunkContains_inBoundaries:
  assumes "endsBeforeNext cs" and "j < length cs" and "chunkContains cs t duration j"
  shows "inBoundaries cs t duration j"
proof (cases "j < length cs - 1")
  case True
  with assms(1) have "case snd (timestamp (cs ! j)) of
      None \<Rightarrow> True | Some e \<Rightarrow> e \<le> fst (timestamp (cs ! (j + 1)))"
    by (simp add: endsBeforeNext_def)
  with True assms(3) show ?thesis
    by (auto simp: chunkContains_def lookupEnd_def inBoundaries_def effectiveEnd_def
        split: option.splits)
next
  case False
  with assms(3) show ?thesis
    by (auto simp: chunkContains_def lookupEnd_def inBoundaries_def effectiveEnd_def
        split: option.splits)
qed

lemma outside_no_index:
  assumes "transcribedData v = Some d" and "\<not> streamingOverride d (currentTime v)"
    and "endsBeforeNext (chunks d)"
    and "outsideAllBoundaries (chunks d) (currentTime v) (audioDuration v)"
  shows "getCurrentUtteranceIndex v = - 1"
proof -
  have "\<not> chunkContains (chunks d) (currentTime v) (audioDuration v) k"
    if "k < length (chunks d)" for k
  proof -
    from assms(4) that
    have "\<not> inBoundaries (chunks d) (currentTime v) (audioDuration v) k"
      by (simp add: outsideAllBoundaries_def)
    with chunkContains_inBoundaries [OF assms(3) that] show ?thesis by blast
  qed
  with getCurrentUtteranceIndex_first [OF assms(1,2)] show ?thesis by auto
qed

text \<open>
  Claim C3 (streaming override). For a non-empty timeline that is still busy, and a current
  time at or after the start of the last chunk, the lookup returns the last index. In the
  example the current time equals the duration, the end boundary of the open last chunk, so
  the render does not count the chunk as playing, and the lookup returns it all the same;
  once the timeline is no longer busy the lookup returns \<open>-1\<close> there.
\<close>

theorem streaming_override:
  assumes "transcribedData v = Some d" and "chunks d \<noteq> []" and "isBusy d"
    and "currentTime v \<ge> fst (timestamp (chunks d ! (length (chunks d) - 1)))"
  shows "getCurrentUtteranceIndex v = int (length (chunks d) - 1)"
  using assms by (simp add: getCurrentUtteranceIndex_def)

theorem streaming_override_witness:
  "getCurrentUtteranceIndex (helloView True 5) = 1 \<and> \<not> isPlaying (helloView True 5) 1 \<and>
   getCurrentUtteranceIndex (helloView False 5) = - 1"
  using streaming_override [of "helloView True 5" "helloData True"]
  by (simp add: helloView_def helloData_def mkChunk_def isPlaying_def renderEnd_def
      getCurrentUtteranceIndex_def findChunk.simps)

text \<open>
  Claim C1 (active-segment boundary resolution), at a timeline with a silence between two
  utterances: chunks \<open>[1, 2]\<close> and \<open>[3, 4]\<close>, not busy, duration \<open>5\<close>, current time \<open>2.5\<close>.
  The claim resolves the end of chunk \<open>0\<close> to the start of chunk \<open>1\<close>, so that \<open>2.5\<close> lies in
  \<open>[1, 3)\<close> and the lookup should return \<open>0\<close>; the render does so and shows chunk \<open>0\<close> as
  playing. The lookup takes the chunk's own end \<open>2\<close> first and returns \<open>-1\<close>, and the
  keyboard handler then ignores the Space key.
\<close>

theorem lookup_misses_silence:
  "getCurrentUtteranceIndex (gapView (5 / 2)) = - 1 \<and> isPlaying (gapView (5 / 2)) 0 \<and>
   renderEnd (chunks gapData) 5 0 = 3 \<and> lookupEnd (chunks gapData) 5 0 = 2 \<and>
   handleKeyDown (keyPress '' '') (gapView (5 / 2)) = (gapView (5 / 2), [])"
  by (simp add: gapView_def gapData_def mkChunk_def getCurrentUtteranceIndex_def
      findChunk.simps isPlaying_def renderEnd_def lookupEnd_def handleKeyDown_def keyPress_def)

section \<open>Keyboard commands\<close>

text \<open>
  Claim C6 (keyboard no-op guard) does not hold while the engine is streaming. Chunks
  \<open>[0, 2]\<close> and \<open>[2, open]\<close>, busy, duration \<open>5\<close>, current time \<open>5\<close>, no edit session: the time
  is outside the boundaries of both segments and the render shows neither as playing, yet
  the special case of the lookup makes the last segment current, Space calls \<^verbatim>\<open>play()\<close> and
  Enter opens an edit session on index \<open>1\<close>.
\<close>

theorem keyboard_guard_streaming_counterexample:
  "editingIndex (helloView True 5) = None \<and>
   endsBeforeNext (chunks (helloData True)) \<and>
   outsideAllBoundaries (chunks (helloData True)) 5 5 \<and>
   \<not> isPlaying (helloView True 5) 0 \<and> \<not> isPlaying (helloView True 5) 1 \<and>
   handleKeyDown (keyPress '' '') (helloView True 5) = (helloView True 5, [PreventDefault, Play]) \<and>
   editingIndex (fst (handleKeyDown (keyPress ''Enter'') (helloView True 5))) = Some 1"
  by (simp add: helloView_def helloData_def mkChunk_def keyPress_def endsBeforeNext_def
      outsideAllBoundaries_def inBoundaries_def effectiveEnd_def isPlaying_def renderEnd_def
      handleKeyDown_def getCurrentUtteranceIndex_def falsy_def)

text \<open>
  Claim C6 as amended. With no edit session active, a key event for ArrowRight, ArrowLeft,
  Enter or Space leaves the view unchanged and makes no call (no seek, no play or pause, no
  edit session) when the timeline is absent or empty, or when the streaming special case
  does not apply (the engine is not busy, or the time is before the start of the last
  segment), no stated end time exceeds the start of the next segment, and the time is
  outside the boundaries of every segment. The examples are a time before the first
  utterance, a time after the last one, and an empty timeline.
\<close>

theorem keyboard_guard:
  assumes "editingIndex v = None"
    and "key e \<in> {''ArrowRight'', ''ArrowLeft'', ''Enter'', '' ''}"
    and "transcribedData v = None \<or>
         (\<exists>d. transcribedData v = Some d \<and>
            (chunks d = [] \<or>
             (\<not> streamingOverride d (currentTime v) \<and> endsBeforeNext (chunks d) \<and>
              outsideAllBoundaries (chunks d) (currentTime v) (audioDuration v))))"
  shows "handleKeyDown e v = (v, [])"
proof (cases "transcribedData v")
  case None
  then show ?thesis by (simp add: handleKeyDown_def)
next
  case (Some d)
  show ?thesis
  proof (cases "chunks d = []")
    case True
    with Some show ?thesis by (simp add: handleKeyDown_def)
  next
    case False
    with Some assms(3) have "getCurrentUtteranceIndex v = - 1"
      by (auto intro: outside_no_index)
    with Some show ?thesis by (simp add: handleKeyDown_def)
  qed
qed

theorem keyboard_guard_witness:
  "handleKeyDown (keyPress ''ArrowRight'') (gapView (1 / 2)) = (gapView (1 / 2), []) \<and>
   handleKeyDown (keyPress '' '') (gapView (9 / 2)) = (gapView (9 / 2), []) \<and>
   handleKeyDown (keyPress ''Enter'') emptyView = (emptyView, [])"
proof -
  have cs: "endsBeforeNext (chunks gapData)"
    by (simp add: gapData_def mkChunk_def endsBeforeNext_def)
  have out: "outsideAllBoundaries (chunks gapData) (1 / 2) 5"
    "outsideAllBoundaries (chunks gapData) (9 / 2) 5"
    by (simp_all add: gapData_def mkChunk_def outsideAllBoundaries_def inBoundaries_def
        effectiveEnd_def)
  have idle: "\<not> streamingOverride gapData t" for t
    by (simp add: gapData_def streamingOverride_def)
  have "handleKeyDown (keyPress ''ArrowRight'') (gapView (1 / 2)) = (gapView (1 / 2), [])"
    using keyboard_guard [of "gapView (1 / 2)" "keyPress ''ArrowRight''"] cs out idle
    by (simp add: gapView_def keyPress_def)
  moreover have "handleKeyDown (keyPress '' '') (gapView (9 / 2)) = (gapView (9 / 2), [])"
    using keyboard_guard [of "gapView (9 / 2)" "keyPress '' ''"] cs out idle
    by (simp add: gapView_def keyPress_def)
  moreover have "handleKeyDown (keyPress ''Enter'') emptyView = (emptyView, [])"
    using keyboard_guard [of emptyView "keyPress ''Enter''"]
    by (simp add: emptyView_def initialView_def initialTranscript_def keyPress_def)
  ultimately show ?thesis by simp
qed

subsection \<open>Playback rate\<close>

lemma rateOk_Ints: "rateOk r \<longleftrightarrow> 1 / 4 \<le> r \<and> r \<le> 4 \<and> 4 * r \<in> \<int>"
proof -
  have "4 * r = of_int \<lfloor>4 * r\<rfloor> \<longleftrightarrow> 4 * r \<in> \<int>"
    by (metis Ints_of_int of_int_floor)
  then show ?thesis by (simp add: rateOk_def)
qed

lemma rateOk_up: "rateOk r \<Longrightarrow> rateOk (min 4 (r + 1 / 4))"
proof -
  assume r: "rateOk r"
  then have "4 * r + 1 \<in> \<int>" by (simp add: rateOk_Ints)
  moreover have "4 * (r + 1 / 4) = 4 * r + 1" by (simp add: distrib_left)
  ultimately have "4 * (r + 1 / 4) \<in> \<int>" by simp
  with r show ?thesis by (auto simp: rateOk_Ints min_def)
qed

lemma rateOk_down: "rateOk r \<Longrightarrow> rateOk (max (1 / 4) (r - 1 / 4))"
proof -
  assume r: "rateOk r"
  then have "4 * r - 1 \<in> \<int>" by (simp add: rateOk_Ints)
  moreover have "4 * (r - 1 / 4) = 4 * r - 1" by (simp add: right_diff_distrib)
  ultimately have "4 * (r - 1 / 4) \<in> \<int>" by simp
  with r show ?thesis by (auto simp: rateOk_Ints max_def)
qed

lemma handleKeyDown_speed:
  "playbackSpeed (fst (handleKeyDown e v)) \<in>
     {playbackSpeed v, min 4 (playbackSpeed v + 1 / 4), max (1 / 4) (playbackSpeed v - 1 / 4)}"
  by (simp add: handleKeyDown_def Let_def split: option.splits)

lemma rateOk_handleKeyDown:
  "rateOk (playbackSpeed v) \<Longrightarrow> rateOk (playbackSpeed (fst (handleKeyDown e v)))"
  using handleKeyDown_speed [of e v] rateOk_up [of "playbackSpeed v"] rateOk_down [of "playbackSpeed v"]
  by auto

lemma reachableSpeed_rateOk: "reachableSpeed r \<Longrightarrow> rateOk r"
proof (induction rule: reachableSpeed.induct)
  case initial
  show ?case by (simp add: rateOk_def)
next
  case (keyDown v e)
  then show ?case by (simp add: rateOk_handleKeyDown)
qed

text \<open>
  Claim C7 (playback-rate adjustment) does not hold as stated: the handler returns before
  the key is looked at when no segment is active. With no edit session, the audio element
  available and an empty timeline, ArrowUp leaves the speed at \<open>1\<close> and makes no call.
\<close>

theorem playback_rate_unconditional_counterexample:
  "editingIndex emptyView = None \<and> audioRef emptyView = Some \<lparr>paused = True, playbackRate = 1\<rparr> \<and>
   playbackSpeed emptyView = 1 \<and>
   handleKeyDown (keyPress ''ArrowUp'') emptyView = (emptyView, [])"
  by (simp add: emptyView_def initialView_def initialTranscript_def handleKeyDown_def keyPress_def)

text \<open>
  Claim C7 as amended. With no edit session, an event target that is not a text input, an
  active segment, the audio element available and the speed held by the listener equal to
  the rate of the audio element, ArrowUp increases the rate of the audio element, and the
  speed of the view with it, by \<open>0.25\<close>, to at most \<open>4\<close>, and ArrowDown decreases them by
  \<open>0.25\<close>, to at least \<open>0.25\<close>. Every speed reached from the initial \<open>1\<close> lies in
  \<open>[0.25, 4]\<close> and is a multiple of \<open>0.25\<close>.
\<close>

theorem playback_rate_adjustment:
  "(editingIndex v = None \<and> \<not> targetIsInput e \<and> getCurrentUtteranceIndex v \<noteq> - 1 \<and>
    audioRef v = Some a \<and> playbackSpeed v = playbackRate a \<longrightarrow>
      (key e = ''ArrowUp'' \<longrightarrow>
         audioRef (fst (handleKeyDown e v)) =
           Some (a\<lparr>playbackRate := min 4 (playbackRate a + 1 / 4)\<rparr>) \<and>
         playbackSpeed (fst (handleKeyDown e v)) = min 4 (playbackRate a + 1 / 4)) \<and>
      (key e = ''ArrowDown'' \<longrightarrow>
         audioRef (fst (handleKeyDown e v)) =
           Some (a\<lparr>playbackRate := max (1 / 4) (playbackRate a - 1 / 4)\<rparr>) \<and>
         playbackSpeed (fst (handleKeyDown e v)) = max (1 / 4) (playbackRate a - 1 / 4))) \<and>
   (reachableSpeed r \<longrightarrow> rateOk r)"
proof -
  have "transcribedData v \<noteq> None \<and> chunks (the (transcribedData v)) \<noteq> []"
    if "getCurrentUtteranceIndex v \<noteq> - 1"
    using that by (auto simp: getCurrentUtteranceIndex_def split: option.splits if_splits)
  then show ?thesis
    by (auto simp: handleKeyDown_def Let_def reachableSpeed_rateOk)
qed

theorem playback_rate_adjustment_witness:
  "audioRef (fst (handleKeyDown (keyPress ''ArrowUp'') (helloView False 1))) =
     Some \<lparr>paused = True, playbackRate = 5 / 4\<rparr> \<and>
   audioRef (fst (handleKeyDown (keyPress ''ArrowDown'') (helloView False 1))) =
     Some \<lparr>paused = True, playbackRate = 3 / 4\<rparr> \<and>
   playbackSpeed (fst (handleKeyDown (keyPress ''ArrowUp'') (helloView False 1))) = 5 / 4 \<and>
   reachableSpeed (5 / 4) \<and> rateOk (5 / 4)"
proof -
  let ?v = "helloView False 1"
  let ?a = "\<lparr>paused = True, playbackRate = 1\<rparr>"
  have idx: "getCurrentUtteranceIndex ?v = 0"
    by (simp add: helloView_def helloData_def mkChunk_def getCurrentUtteranceIndex_def
        findChunk.simps)
  have pre: "editingIndex ?v = None \<and> audioRef ?v = Some ?a \<and> playbackSpeed ?v = 1"
    by (simp add: helloView_def)
  have up: "audioRef (fst (handleKeyDown (keyPress ''ArrowUp'') ?v)) =
        Some \<lparr>paused = True, playbackRate = 5 / 4\<rparr> \<and>
      playbackSpeed (fst (handleKeyDown (keyPress ''ArrowUp'') ?v)) = 5 / 4"
    using playback_rate_adjustment [of ?v "keyPress ''ArrowUp''" ?a 1] idx pre
    by (simp add: keyPress_def)
  have down: "audioRef (fst (handleKeyDown (keyPress ''ArrowDown'') ?v)) =
        Some \<lparr>paused = True, playbackRate = 3 / 4\<rparr>"
    using playback_rate_adjustment [of ?v "keyPress ''ArrowDown''" ?a 1] idx pre
    by (simp add: keyPress_def)
  have "reachableSpeed (playbackSpeed ?v)"
    using pre reachableSpeed.initial by simp
  then have "reachableSpeed (playbackSpeed (fst (handleKeyDown (keyPress ''ArrowUp'') ?v)))"
    by (rule reachableSpeed.keyDown)
  then have reach: "reachableSpeed (5 / 4)" using up by simp
  with playback_rate_adjustment [of ?v "keyPress ''ArrowUp''" ?a "5 / 4"]
  have "rateOk (5 / 4)" by blast
  with up down reach show ?thesis by simp
qed

text \<open>
  A listener that holds an earlier speed: with speed \<open>1\<close> held and the rate already at
  \<open>1.25\<close>, ArrowUp leaves the rate at \<open>1.25\<close> and ArrowDown sets it to \<open>0.75\<close>.
\<close>

lemma stale_listener_example:
  "editingIndex staleView = None \<and> getCurrentUtteranceIndex staleView = 0 \<and>
   playbackSpeed staleView = 1 \<and>
   audioRef staleView = Some \<lparr>paused = True, playbackRate = 5 / 4\<rparr> \<and>
   audioRef (fst (handleKeyDown (keyPress ''ArrowUp'') staleView)) =
     Some \<lparr>paused = True, playbackRate = 5 / 4\<rparr> \<and>
   audioRef (fst (handleKeyDown (keyPress ''ArrowDown'') staleView)) =
     Some \<lparr>paused = True, playbackRate = 3 / 4\<rparr>"
  by (simp add: staleView_def helloView_def helloData_def mkChunk_def keyPress_def
      getCurrentUtteranceIndex_def findChunk.simps handleKeyDown_def Let_def)

section \<open>Edit session\<close>

text \<open>
  Claim C4 (commit round-trip and cancel no-op). Enter, handled with no edit session while
  segment \<open>i\<close> is active, opens the edit session on \<open>i\<close> with the segment's text as draft.
  After the draft is set to \<open>T\<close>, Enter without shift in the textarea closes the session and
  leaves a timeline of the same length whose segment \<open>i\<close> has text \<open>T\<close>, is marked edited and
  keeps its timestamp, whose other segments are unchanged, and whose full text is the
  concatenation of the segment texts; Escape closes the session and leaves the timeline as
  it was.
\<close>

theorem commit_round_trip:
  assumes "editingIndex v = None" and "key e = ''Enter''" and "\<not> targetIsInput e"
    and "getCurrentUtteranceIndex v = int i"
    and "transcribedData v = Some d"
    and "editing = onChange T (fst (handleKeyDown e v))"
    and "key c = ''Enter''" and "\<not> shiftKey c"
    and "key x = ''Escape''"
  shows "editingIndex (fst (handleKeyDown e v)) = Some i \<and>
         editText (fst (handleKeyDown e v)) = text_chunk (chunks d ! i) \<and>
         (\<exists>v' d'. handleEditKeyDown c editing = Inr (v', [PreventDefault, StopPropagation]) \<and>
            editingIndex v' = None \<and> transcribedData v' = Some d' \<and>
            length (chunks d') = length (chunks d) \<and>
            text_chunk (chunks d' ! i) = T \<and>
            isEdited (chunks d' ! i) = Some True \<and>
            timestamp (chunks d' ! i) = timestamp (chunks d ! i) \<and>
            (\<forall>j < length (chunks d). j \<noteq> i \<longrightarrow> chunks d' ! j = chunks d ! j) \<and>
            text_data d' = concat (map text_chunk (chunks d'))) \<and>
         (\<exists>v'. handleEditKeyDown x editing = Inr (v', [PreventDefault, StopPropagation]) \<and>
            editingIndex v' = None \<and> transcribedData v' = Some d)"
proof -
  from getCurrentUtteranceIndex_range [OF assms(4)] assms(5)
  have i: "i < length (chunks d)" by simp
  then have ne: "chunks d \<noteq> []" by auto
  have enter: "fst (handleKeyDown e v) =
      v\<lparr>editingIndex := Some i, editText := text_chunk (chunks d ! i)\<rparr>"
    using assms(1-5) ne by (simp add: handleKeyDown_def falsy_def)
  have ed: "editing = v\<lparr>editingIndex := Some i, editText := T\<rparr>"
    by (simp add: assms(6) enter onChange_def)
  have commit: "handleEditKeyDown c editing =
      Inr (v\<lparr>transcribedData :=
               Some (d\<lparr>chunks := (chunks d)[i := (chunks d ! i)\<lparr>text_chunk := T, isEdited := Some True\<rparr>],
                      text_data := concat (map text_chunk
                         ((chunks d)[i := (chunks d ! i)\<lparr>text_chunk := T, isEdited := Some True\<rparr>]))\<rparr>),
             editingIndex := None, editText := T\<rparr>,
           [PreventDefault, StopPropagation])"
    using assms(5,7,8) i by (simp add: handleEditKeyDown_def ed Let_def)
  have cancel: "handleEditKeyDown x editing =
      Inr (v\<lparr>editingIndex := None, editText := T\<rparr>, [PreventDefault, StopPropagation])"
    using assms(9) by (simp add: handleEditKeyDown_def ed)
  show ?thesis
    using i assms(5) by (simp add: enter commit cancel)
qed

theorem commit_round_trip_witness:
  "editingIndex (fst (handleKeyDown (keyPress ''Enter'') (helloView False 1))) = Some 0 \<and>
   editText (fst (handleKeyDown (keyPress ''Enter'') (helloView False 1))) = ''Hello'' \<and>
   (\<exists>v' d'. handleEditKeyDown (keyPress ''Enter'')
               (onChange ''Hi'' (fst (handleKeyDown (keyPress ''Enter'') (helloView False 1))))
             = Inr (v', [PreventDefault, StopPropagation]) \<and>
        transcribedData v' = Some d' \<and>
        chunks d' = [mkChunk ''Hi'' 0 (Some 2) (Some True), mkChunk ''world'' 2 None None] \<and>
        text_data d' = ''Hiworld'') \<and>
   (\<exists>v'. handleEditKeyDown (keyPress ''Escape'')
               (onChange ''Hi'' (fst (handleKeyDown (keyPress ''Enter'') (helloView False 1))))
             = Inr (v', [PreventDefault, StopPropagation]) \<and>
        transcribedData v' = Some (helloData False))"
  using commit_round_trip [of "helloView False 1" "keyPress ''Enter''" 0 "helloData False"
      "onChange ''Hi'' (fst (handleKeyDown (keyPress ''Enter'') (helloView False 1)))" "''Hi''"
      "keyPress ''Enter''" "keyPress ''Escape''"]
  by (simp add: helloView_def helloData_def mkChunk_def keyPress_def
      getCurrentUtteranceIndex_def findChunk.simps handleKeyDown_def falsy_def onChange_def
      handleEditKeyDown_def)

end
